theory Spec2Isabelle
  imports Main
begin

section \<open>Python values\<close>

text \<open>
  The plugin (\<^verbatim>\<open>plugins/inventory/inventory.py\<close>) reads loosely typed dictionaries. The values
  it tests and formats are either \<^verbatim>\<open>None\<close> or a string, so a field read with \<^verbatim>\<open>d.get(k)\<close> is a
  \<open>pyval\<close>: \<open>PNone\<close> when the key is absent or its value is null, \<open>PStr s\<close> otherwise.
\<close>

datatype pyval = PNone | PStr string

text \<open>Truthiness, as \<^verbatim>\<open>if x:\<close> and \<^verbatim>\<open>not x\<close> test it: \<^verbatim>\<open>None\<close> and the empty string are false.\<close>

fun truthy :: "pyval \<Rightarrow> bool" where
  "truthy PNone = False"
| "truthy (PStr s) = (s \<noteq> [])"

text \<open>\<^verbatim>\<open>a or b\<close> returns \<open>a\<close> when it is truthy and \<open>b\<close> otherwise.\<close>

definition py_or :: "pyval \<Rightarrow> pyval \<Rightarrow> pyval" where
  "py_or a b = (if truthy a then a else b)"

text \<open>\<^verbatim>\<open>str(x)\<close> and the formatting of \<^verbatim>\<open>{x}\<close> in an f-string.\<close>

fun py_str :: "pyval \<Rightarrow> string" where
  "py_str PNone = ''None''"
| "py_str (PStr s) = s"

text \<open>
  \<^verbatim>\<open>s.replace(old, new)\<close> for one-character \<open>old\<close> and \<open>new\<close>: every occurrence is replaced.
\<close>

definition replace :: "char \<Rightarrow> char \<Rightarrow> string \<Rightarrow> string" where
  "replace old new s = map (\<lambda>c. if c = old then new else c) s"

text \<open>
  A Python dictionary with string keys, in insertion order: assigning to a key that is
  already there keeps its position and overwrites its value.
\<close>

type_synonym 'v dict = "(string \<times> 'v) list"

fun dict_set :: "'v dict \<Rightarrow> string \<Rightarrow> 'v \<Rightarrow> 'v dict" where
  "dict_set [] k v = [(k, v)]"
| "dict_set ((k', v') # d) k v =
     (if k' = k then (k, v) # d else (k', v') # dict_set d k v)"

text \<open>\<^verbatim>\<open>d.get(k, default)\<close>.\<close>

definition dict_get :: "'v dict \<Rightarrow> string \<Rightarrow> 'v \<Rightarrow> 'v" where
  "dict_get d k dflt = (case map_of d k of None \<Rightarrow> dflt | Some v \<Rightarrow> v)"

text \<open>
  Option values the plugin only passes on (the filter map, the expressions of the
  Constructable features, the strictness flag) are kept as parsed YAML.
\<close>

datatype yaml = YNull | YBool bool | YStr string | YList "yaml list" | YDict "(string \<times> yaml) list"

section \<open>Records of the provider\<close>

text \<open>
  A tag is \<^verbatim>\<open>{"Key": k, "Value": v}\<close>. The code tests \<^verbatim>\<open>'Value' in tag\<close> and guards against a
  null value (\<^verbatim>\<open>value or ''\<close>), so \<open>Value\<close> is \<open>None\<close> when the key is missing and \<open>Some PNone\<close>
  when it is null. \<^verbatim>\<open>tag['Key']\<close> is read without a guard: the key is a string of every tag.
\<close>

record tag =
  Key :: string
  Value :: "pyval option"

text \<open>\<^verbatim>\<open>vm.get('Placement', {}).get('SubregionName')\<close>: an absent placement is the empty dictionary.\<close>

record placement =
  SubregionName :: pyval

record vm =
  VmId :: pyval
  PublicIp :: pyval
  PrivateIp :: pyval
  State :: pyval
  VmType :: pyval
  Placement :: "placement option"
  Tags :: "tag list"

text \<open>
  One response of \<^verbatim>\<open>ReadVms\<close>: \<^verbatim>\<open>response.get('Vms', [])\<close> and \<^verbatim>\<open>response.get('NextPageToken')\<close>.
\<close>

record response =
  Vms :: "vm list"
  NextPageToken :: pyval

text \<open>The keyword arguments of one \<^verbatim>\<open>ReadVms\<close> call; \<open>None\<close> is a key that is not in \<^verbatim>\<open>params\<close>.\<close>

record params =
  param_Filters :: yaml
  param_NextPageToken :: "pyval option"

section \<open>Errors and outcomes\<close>

text \<open>
  The exceptions that end \<^verbatim>\<open>parse\<close>: \<^verbatim>\<open>AnsibleError\<close> with its message, the orchestrator's
  \<^verbatim>\<open>AnsibleOptionsError\<close> for an option value it refuses, with the name of the option, the
  error built by \<^verbatim>\<open>missing_required_lib\<close> with the name of the library, Python's
  \<^verbatim>\<open>UnboundLocalError\<close> with the name of the local variable, and whatever a \<^verbatim>\<open>ReadVms\<close> call
  raises.
\<close>

datatype error =
    AnsibleError string
  | AnsibleOptionsError string
  | MissingRequiredLib string
  | UnboundLocalError string
  | ProviderError string

text \<open>
  A run either finishes or is aborted by an exception; in both cases the inventory sink
  is left in some state, which the outcome carries.
\<close>

datatype 's outcome = Done 's | Abort error 's

section \<open>The inventory sink and the Constructable features\<close>

text \<open>
  The sink (\<^verbatim>\<open>inventory\<close>) and the three Constructable methods belong to the orchestrator.
  They are parameters of the model: a state type \<open>'s\<close> and the operations the plugin
  calls. \<open>get_host_var s h v\<close> is \<^verbatim>\<open>inventory.get_host(h).get_vars().get(v)\<close>. The
  Constructable methods may raise under \<^verbatim>\<open>strict\<close>, so they return an outcome.
\<close>

datatype pyobj = Atom pyval | Dict "pyval dict"

record 's inventory =
  add_host :: "string \<Rightarrow> 's \<Rightarrow> 's"
  set_variable :: "string \<Rightarrow> string \<Rightarrow> pyobj \<Rightarrow> 's \<Rightarrow> 's"
  add_group :: "string \<Rightarrow> 's \<Rightarrow> 's"
  add_child :: "string \<Rightarrow> string \<Rightarrow> 's \<Rightarrow> 's"
  get_host_var :: "'s \<Rightarrow> string \<Rightarrow> string \<Rightarrow> pyobj"
  set_composite_vars :: "yaml \<Rightarrow> pyobj dict \<Rightarrow> string \<Rightarrow> yaml \<Rightarrow> 's \<Rightarrow> 's outcome"
  add_host_to_composed_groups :: "yaml \<Rightarrow> pyobj dict \<Rightarrow> string \<Rightarrow> yaml \<Rightarrow> 's \<Rightarrow> 's outcome"
  add_host_to_keyed_groups :: "yaml \<Rightarrow> pyobj dict \<Rightarrow> string \<Rightarrow> yaml \<Rightarrow> 's \<Rightarrow> 's outcome"

text \<open>Sequencing of steps that may raise: the first exception ends the run.\<close>

fun and_then :: "'s outcome \<Rightarrow> ('s \<Rightarrow> 's outcome) \<Rightarrow> 's outcome" where
  "and_then (Done s) f = f s"
| "and_then (Abort e s) f = Abort e s"

section \<open>Configuration\<close>

text \<open>
  The dictionary returned by \<^verbatim>\<open>_read_config_data\<close>: each field is \<open>None\<close> when the file omits
  the key. \<open>config_get\<close> is \<^verbatim>\<open>config.get(k, default)\<close>.
\<close>

record config =
  cfg_access_key :: "pyval option"
  cfg_secret_key :: "pyval option"
  cfg_region :: "pyval option"
  cfg_filters :: "yaml option"
  cfg_hostname_variable :: "pyval option"
  cfg_ip_preference :: "pyval option"
  cfg_group_by :: "string list option"
  cfg_compose :: "yaml option"
  cfg_groups :: "yaml option"
  cfg_keyed_groups :: "yaml option"
  cfg_strict :: "yaml option"

definition config_get :: "'a option \<Rightarrow> 'a \<Rightarrow> 'a" where
  "config_get field dflt = (case field of None \<Rightarrow> dflt | Some v \<Rightarrow> v)"

text \<open>\<^verbatim>\<open>os.getenv(name)\<close> on the process environment.\<close>

definition getenv :: "(string \<rightharpoonup> string) \<Rightarrow> string \<Rightarrow> pyval" where
  "getenv env name = (case env name of None \<Rightarrow> PNone | Some s \<Rightarrow> PStr s)"

text \<open>The local variables \<^verbatim>\<open>parse\<close> reads from the configuration (lines 101 to 113).\<close>

record options =
  opt_access_key :: pyval
  opt_secret_key :: pyval
  opt_region :: pyval
  opt_filters :: yaml
  opt_hostname_variable :: pyval
  opt_ip_preference :: pyval
  opt_group_by :: "string list"
  opt_compose :: yaml
  opt_groups :: yaml
  opt_keyed_groups :: yaml
  opt_strict :: yaml

definition get_options :: "config \<Rightarrow> (string \<rightharpoonup> string) \<Rightarrow> options" where
  "get_options config env =
     \<lparr> opt_access_key = py_or (config_get (cfg_access_key config) PNone) (getenv env ''OSC_ACCESS_KEY''),
       opt_secret_key = py_or (config_get (cfg_secret_key config) PNone) (getenv env ''OSC_SECRET_KEY''),
       opt_region = py_or (config_get (cfg_region config) (PStr ''eu-west-2'')) (getenv env ''OSC_REGION''),
       opt_filters = config_get (cfg_filters config) (YDict []),
       opt_hostname_variable = config_get (cfg_hostname_variable config) (PStr ''tag_Name''),
       opt_ip_preference = config_get (cfg_ip_preference config) (PStr ''public_or_private''),
       opt_group_by = config_get (cfg_group_by config)
                        [''tags'', ''region'', ''subregion'', ''vm_type'', ''state''],
       opt_compose = config_get (cfg_compose config) (YDict []),
       opt_groups = config_get (cfg_groups config) (YDict []),
       opt_keyed_groups = config_get (cfg_keyed_groups config) (YList []),
       opt_strict = config_get (cfg_strict config) (YBool False) \<rparr>"

text \<open>
  What the \<^verbatim>\<open>DOCUMENTATION\<close> block declares for the options the claims are about: the
  default and the choices of \<^verbatim>\<open>ip_preference\<close> (lines 47 to 51), the choices of
  \<^verbatim>\<open>hostname_variable\<close> (line 45) and of \<^verbatim>\<open>group_by\<close> (line 56), the default and the
  environment variable of \<^verbatim>\<open>region\<close> (lines 32 to 37).
\<close>

definition documented_ip_preference_default :: string where
  "documented_ip_preference_default = ''prefer_public''"

definition documented_ip_preference_choices :: "string list" where
  "documented_ip_preference_choices = [''prefer_public'', ''public_only'', ''private_only'']"

definition documented_hostname_variable_choices :: "string list" where
  "documented_hostname_variable_choices = [''vm_id'', ''public_ip'', ''private_ip'', ''tag_Name'']"

definition documented_region_default :: string where
  "documented_region_default = ''eu-west-2''"

definition documented_region_env :: string where
  "documented_region_env = ''OSC_REGION''"

definition documented_group_by_choices :: "string list" where
  "documented_group_by_choices = [''tags'', ''region'', ''subregion'', ''vm_type'', ''state'']"

text \<open>
  Line 95, \<^verbatim>\<open>config = self._read_config_data(path)\<close>. The method is the orchestrator's: it
  loads the file, hands the dictionary to \<^verbatim>\<open>set_options\<close>, which checks every option
  against its declaration in the \<^verbatim>\<open>DOCUMENTATION\<close> block, and returns the dictionary as
  loaded. The check is modelled from the declared choices: a value that is present, not
  null and not among the choices of its option is refused with \<^verbatim>\<open>AnsibleOptionsError\<close>; an
  omitted or null value stands for the declared default and passes. For the list option
  \<^verbatim>\<open>group_by\<close> every element must be a choice.
\<close>

definition choice_accepted :: "string list \<Rightarrow> pyval option \<Rightarrow> bool" where
  "choice_accepted choices field =
     (case field of None \<Rightarrow> True | Some PNone \<Rightarrow> True | Some (PStr v) \<Rightarrow> v \<in> set choices)"

definition choices_accepted :: "string list \<Rightarrow> string list option \<Rightarrow> bool" where
  "choices_accepted choices field =
     (case field of None \<Rightarrow> True | Some vs \<Rightarrow> list_all (\<lambda>v. v \<in> set choices) vs)"

definition read_config_data :: "config \<Rightarrow> error + config" where
  "read_config_data config =
     (if \<not> choice_accepted documented_hostname_variable_choices (cfg_hostname_variable config)
      then Inl (AnsibleOptionsError ''hostname_variable'')
      else if \<not> choice_accepted documented_ip_preference_choices (cfg_ip_preference config)
      then Inl (AnsibleOptionsError ''ip_preference'')
      else if \<not> choices_accepted documented_group_by_choices (cfg_group_by config)
      then Inl (AnsibleOptionsError ''group_by'')
      else Inr config)"

text \<open>The keyword arguments of \<^verbatim>\<open>Gateway\<close> (lines 120 to 126): a key is set when its value is truthy.\<close>

definition gw_params :: "options \<Rightarrow> pyval dict" where
  "gw_params opts =
     (let p0 = [];
          p1 = (if truthy (opt_access_key opts) then dict_set p0 ''access_key'' (opt_access_key opts) else p0);
          p2 = (if truthy (opt_secret_key opts) then dict_set p1 ''secret_key'' (opt_secret_key opts) else p1);
          p3 = (if truthy (opt_region opts) then dict_set p2 ''region'' (opt_region opts) else p2)
      in p3)"

section \<open>Fetching with pagination\<close>

text \<open>
  The provider is the sequence of its answers: \<open>gw n\<close> is what the call number \<open>n\<close>
  (from 0) returns, a response or an exception. The loop of lines 133 to 140 is
  \<^verbatim>\<open>while True\<close>; it ends when a response has no truthy token, and not otherwise. The
  result also lists the arguments of every call made.
\<close>

partial_function (option) fetch_loop ::
  "(nat \<Rightarrow> error + response) \<Rightarrow> nat \<Rightarrow> pyval \<Rightarrow> params \<Rightarrow> vm list \<Rightarrow> params list
     \<Rightarrow> (error + vm list \<times> params list) option" where
  "fetch_loop gw n next_token params vms calls =
     (let params' = (if truthy next_token
                     then params\<lparr>param_NextPageToken := Some next_token\<rparr> else params)
      in case gw n of
           Inl e \<Rightarrow> Some (Inl e)
         | Inr response \<Rightarrow>
             (let vms' = vms @ Vms response;
                  next_token' = NextPageToken response
              in if \<not> truthy next_token' then Some (Inr (vms', calls @ [params']))
                 else fetch_loop gw (Suc n) next_token' params' vms' (calls @ [params'])))"

definition fetch_vms ::
  "(nat \<Rightarrow> error + response) \<Rightarrow> yaml \<Rightarrow> (error + vm list \<times> params list) option" where
  "fetch_vms gw filters =
     fetch_loop gw 0 PNone \<lparr>param_Filters = filters, param_NextPageToken = None\<rparr> [] []"

section \<open>Processing the records\<close>

text \<open>
  The dictionary comprehension of lines 152, 180 and 196:
  \<^verbatim>\<open>{tag['Key']: tag['Value'] for tag in vm.get('Tags', []) if 'Value' in tag}\<close>.
\<close>

definition flatten_tags :: "tag list \<Rightarrow> pyval dict" where
  "flatten_tags tags =
     foldl (\<lambda>d tag. case Value tag of None \<Rightarrow> d | Some v \<Rightarrow> dict_set d (Key tag) v) [] tags"

text \<open>
  Lines 145 to 153. \<open>hostname\<close> is a local variable of \<^verbatim>\<open>parse\<close>: it is unbound (\<open>None\<close>)
  until a branch assigns it, and keeps its value from one iteration to the next. The chain
  has no \<^verbatim>\<open>else\<close>, so an unrecognised \<open>hostname_variable\<close> leaves the binding as it was.
\<close>

definition determine_hostname :: "pyval \<Rightarrow> vm \<Rightarrow> pyval option \<Rightarrow> pyval option" where
  "determine_hostname hostname_variable vm hostname =
     (if hostname_variable = PStr ''vm_id'' then Some (VmId vm)
      else if hostname_variable = PStr ''public_ip'' then Some (PublicIp vm)
      else if hostname_variable = PStr ''private_ip'' then Some (PrivateIp vm)
      else if hostname_variable = PStr ''tag_Name'' then
        (let tags = flatten_tags (Tags vm) in Some (dict_get tags ''Name'' (VmId vm)))
      else hostname)"

text \<open>Lines 161 to 170.\<close>

definition select_ansible_host :: "pyval \<Rightarrow> vm \<Rightarrow> error + pyval" where
  "select_ansible_host ip_preference vm =
     (let public_ip = PublicIp vm; private_ip = PrivateIp vm in
      if ip_preference = PStr ''public_only'' then
        Inr (if truthy public_ip then public_ip else PNone)
      else if ip_preference = PStr ''private_only'' then
        Inr (if truthy private_ip then private_ip else PNone)
      else if ip_preference = PStr ''prefer_public'' then
        Inr (if truthy public_ip then public_ip else private_ip)
      else Inl (AnsibleError (''Invalid parameter value for ip_preference: '' @ py_str ip_preference)))"

definition subregion_of :: "vm \<Rightarrow> pyval" where
  "subregion_of vm = (case Placement vm of None \<Rightarrow> PNone | Some p \<Rightarrow> SubregionName p)"

text \<open>Lines 172 to 180.\<close>

definition set_variables :: "'s inventory \<Rightarrow> string \<Rightarrow> pyval \<Rightarrow> vm \<Rightarrow> 's \<Rightarrow> 's" where
  "set_variables inventory hostname ansible_host vm s =
     (let s1 = (if truthy ansible_host
                then set_variable inventory hostname ''ansible_host'' (Atom ansible_host) s else s);
          s2 = set_variable inventory hostname ''outscale_vm_id'' (Atom (VmId vm)) s1;
          s3 = set_variable inventory hostname ''outscale_state'' (Atom (State vm)) s2;
          s4 = set_variable inventory hostname ''outscale_vm_type'' (Atom (VmType vm)) s3;
          s5 = set_variable inventory hostname ''outscale_subregion'' (Atom (subregion_of vm)) s4;
          s6 = set_variable inventory hostname ''outscale_tags'' (Dict (flatten_tags (Tags vm))) s5
      in s6)"

text \<open>Lines 183 to 187: the variables read back from the sink, those that are not \<^verbatim>\<open>None\<close>.\<close>

definition build_host_vars :: "'s inventory \<Rightarrow> string \<Rightarrow> 's \<Rightarrow> pyobj dict" where
  "build_host_vars inventory hostname s =
     foldl (\<lambda>host_vars var.
              (let val = get_host_var inventory s hostname var
               in if val \<noteq> Atom PNone then dict_set host_vars var val else host_vars))
       []
       [''ansible_host'', ''outscale_vm_id'', ''outscale_state'', ''outscale_vm_type'',
        ''outscale_subregion'', ''outscale_tags'']"

text \<open>Lines 190 to 192.\<close>

definition apply_constructable ::
  "'s inventory \<Rightarrow> options \<Rightarrow> pyobj dict \<Rightarrow> string \<Rightarrow> 's \<Rightarrow> 's outcome" where
  "apply_constructable inventory opts host_vars hostname s =
     and_then
       (and_then
          (set_composite_vars inventory (opt_compose opts) host_vars hostname (opt_strict opts) s)
          (add_host_to_composed_groups inventory (opt_groups opts) host_vars hostname (opt_strict opts)))
       (add_host_to_keyed_groups inventory (opt_keyed_groups opts) host_vars hostname (opt_strict opts))"

text \<open>Lines 197 and 198: the name of the group of one tag.\<close>

definition safe_value :: "pyval \<Rightarrow> string" where
  "safe_value v =
     replace CHR '' '' CHR ''_''
       (replace CHR ''/'' CHR ''_'' (replace CHR '':'' CHR ''_'' (py_str (py_or v (PStr [])))))"

definition tag_group_name :: "string \<Rightarrow> pyval \<Rightarrow> string" where
  "tag_group_name key v = ''tag_'' @ key @ ''_'' @ safe_value v"

text \<open>\<^verbatim>\<open>inventory.add_group(g)\<close> followed by \<^verbatim>\<open>inventory.add_child(g, hostname)\<close>.\<close>

definition add_to_group :: "'s inventory \<Rightarrow> string \<Rightarrow> string \<Rightarrow> 's \<Rightarrow> 's" where
  "add_to_group inventory g hostname s = add_child inventory g hostname (add_group inventory g s)"

text \<open>Lines 195 to 200.\<close>

definition group_by_tags :: "'s inventory \<Rightarrow> vm \<Rightarrow> string \<Rightarrow> 's \<Rightarrow> 's" where
  "group_by_tags inventory vm hostname s =
     foldl (\<lambda>s' (key, v). add_to_group inventory (tag_group_name key v) hostname s')
       s (flatten_tags (Tags vm))"

text \<open>Lines 195 to 222.\<close>

definition add_to_groups :: "'s inventory \<Rightarrow> options \<Rightarrow> vm \<Rightarrow> string \<Rightarrow> 's \<Rightarrow> 's" where
  "add_to_groups inventory opts vm hostname s =
     (let group_by = opt_group_by opts; region = opt_region opts;
          s1 = (if ''tags'' \<in> set group_by then group_by_tags inventory vm hostname s else s);
          s2 = (if ''region'' \<in> set group_by \<and> truthy region
                then add_to_group inventory (py_str region) hostname s1 else s1);
          s3 = (if ''subregion'' \<in> set group_by \<and> truthy (subregion_of vm)
                then add_to_group inventory (py_str (subregion_of vm)) hostname s2 else s2);
          s4 = (if ''vm_type'' \<in> set group_by \<and> truthy (VmType vm)
                then add_to_group inventory (''vm_type_'' @ py_str (VmType vm)) hostname s3 else s3);
          s5 = (if ''state'' \<in> set group_by \<and> truthy (State vm)
                then add_to_group inventory (''state_'' @ py_str (State vm)) hostname s4 else s4)
      in s5)"

text \<open>
  The body of the loop of line 143, for one record: the binding of \<open>hostname\<close> before the
  iteration and the sink go in, the binding after it and the outcome come out.
  \<^verbatim>\<open>continue\<close> is \<open>Done\<close> with the sink as it was.
\<close>

definition process_vm ::
  "'s inventory \<Rightarrow> options \<Rightarrow> vm \<Rightarrow> pyval option \<Rightarrow> 's \<Rightarrow> pyval option \<times> 's outcome" where
  "process_vm inventory opts vm hostname0 s =
     (let hostname = determine_hostname (opt_hostname_variable opts) vm hostname0 in
      case hostname of
        None \<Rightarrow> (hostname, Abort (UnboundLocalError ''hostname'') s)
      | Some h \<Rightarrow>
          if \<not> truthy h then (hostname, Done s)
          else
            (let s1 = add_host inventory (py_str h) s in
             case select_ansible_host (opt_ip_preference opts) vm of
               Inl e \<Rightarrow> (hostname, Abort e s1)
             | Inr ansible_host \<Rightarrow>
                 (let s2 = set_variables inventory (py_str h) ansible_host vm s1;
                      host_vars = build_host_vars inventory (py_str h) s2
                  in (hostname,
                      and_then (apply_constructable inventory opts host_vars (py_str h) s2)
                        (\<lambda>s3. Done (add_to_groups inventory opts vm (py_str h) s3))))))"

fun process_vms ::
  "'s inventory \<Rightarrow> options \<Rightarrow> vm list \<Rightarrow> pyval option \<Rightarrow> 's \<Rightarrow> 's outcome" where
  "process_vms inventory opts [] hostname s = Done s"
| "process_vms inventory opts (vm # vms) hostname s =
     (case process_vm inventory opts vm hostname s of
        (hostname', Done s') \<Rightarrow> process_vms inventory opts vms hostname' s'
      | (hostname', Abort e s') \<Rightarrow> Abort e s')"

section \<open>The entry point\<close>

text \<open>
  \<^verbatim>\<open>parse\<close>, from line 95 on. The dictionary the configuration file holds, the
  environment, the flag \<^verbatim>\<open>HAS_OSC_SDK\<close>, the provider and the sink are its inputs; \<open>None\<close> is
  a fetch loop that never ends. The configuration is read and checked first (line 95),
  before the flag, the credentials and the fetch. The message of \<^verbatim>\<open>missing_required_lib\<close>
  is the orchestrator's; the error keeps the name of the library.
\<close>

definition credentials_message :: string where
  "credentials_message = ''Outscale access_key and secret_key must be provided via the configuration file or environment variables (OSC_ACCESS_KEY, OSC_SECRET_KEY).''"

definition parse ::
  "'s inventory \<Rightarrow> bool \<Rightarrow> config \<Rightarrow> (string \<rightharpoonup> string) \<Rightarrow> (nat \<Rightarrow> error + response) \<Rightarrow> 's
     \<Rightarrow> 's outcome option" where
  "parse inventory HAS_OSC_SDK file env gw s =
     (case read_config_data file of
        Inl e \<Rightarrow> Some (Abort e s)
      | Inr config \<Rightarrow>
          if \<not> HAS_OSC_SDK then Some (Abort (MissingRequiredLib ''osc-sdk-python'') s)
          else
            (let opts = get_options config env in
             if \<not> truthy (opt_access_key opts) \<or> \<not> truthy (opt_secret_key opts) then
               Some (Abort (AnsibleError credentials_message) s)
             else
               (case fetch_vms gw (opt_filters opts) of
                  None \<Rightarrow> None
                | Some (Inl e) \<Rightarrow> Some (Abort e s)
                | Some (Inr (vms, calls)) \<Rightarrow> Some (process_vms inventory opts vms None s))))"

section \<open>A recording sink\<close>

text \<open>
  One instance of the sink keeps the list of the calls made on it, in order, with their
  arguments. A variable of a host reads as the value of the last \<^verbatim>\<open>set_variable\<close> call for
  it, \<^verbatim>\<open>None\<close> when there is none; the Constructable methods are recorded and do not raise.
\<close>

datatype event =
    AddHost string
  | SetVariable string string pyobj
  | AddGroup string
  | AddChild string string
  | SetCompositeVars yaml "pyobj dict" string yaml
  | AddHostToComposedGroups yaml "pyobj dict" string yaml
  | AddHostToKeyedGroups yaml "pyobj dict" string yaml

fun lookup_var :: "event list \<Rightarrow> string \<Rightarrow> string \<Rightarrow> pyobj" where
  "lookup_var [] h var = Atom PNone"
| "lookup_var (SetVariable h' var' v # es) h var =
     (if h' = h \<and> var' = var then v else lookup_var es h var)"
| "lookup_var (e # es) h var = lookup_var es h var"

definition recorder :: "event list inventory" where
  "recorder =
     \<lparr> add_host = (\<lambda>h log. log @ [AddHost h]),
       set_variable = (\<lambda>h var v log. log @ [SetVariable h var v]),
       add_group = (\<lambda>g log. log @ [AddGroup g]),
       add_child = (\<lambda>g h log. log @ [AddChild g h]),
       get_host_var = (\<lambda>log h var. lookup_var (rev log) h var),
       set_composite_vars = (\<lambda>c hv h st log. Done (log @ [SetCompositeVars c hv h st])),
       add_host_to_composed_groups =
         (\<lambda>c hv h st log. Done (log @ [AddHostToComposedGroups c hv h st])),
       add_host_to_keyed_groups =
         (\<lambda>c hv h st log. Done (log @ [AddHostToKeyedGroups c hv h st])) \<rparr>"

section \<open>Notions used in the properties\<close>

text \<open>
  The key and value pairs of a tag list, in order, leaving out the tags that have no
  \<^verbatim>\<open>Value\<close>: what flattening is compared with.
\<close>

definition valued_pairs :: "tag list \<Rightarrow> (string \<times> pyval) list" where
  "valued_pairs tags = List.map_filter (\<lambda>t. map_option (\<lambda>v. (Key t, v)) (Value t)) tags"

text \<open>
  The calls of the recording sink by kind: the three Constructable methods, the group
  operations, the variable assignments.
\<close>

fun is_constructable :: "event \<Rightarrow> bool" where
  "is_constructable (SetCompositeVars c hv h st) = True"
| "is_constructable (AddHostToComposedGroups c hv h st) = True"
| "is_constructable (AddHostToKeyedGroups c hv h st) = True"
| "is_constructable e = False"

fun is_grouping :: "event \<Rightarrow> bool" where
  "is_grouping (AddGroup g) = True"
| "is_grouping (AddChild g h) = True"
| "is_grouping e = False"

fun is_set_variable :: "event \<Rightarrow> bool" where
  "is_set_variable (SetVariable h var v) = True"
| "is_set_variable e = False"

text \<open>
  \<open>all_before P Q log\<close>: every call of kind \<open>P\<close> comes before every call of kind \<open>Q\<close>, that
  is, from the first \<open>Q\<close> call on there is no \<open>P\<close> call.
\<close>

definition all_before :: "(event \<Rightarrow> bool) \<Rightarrow> (event \<Rightarrow> bool) \<Rightarrow> event list \<Rightarrow> bool" where
  "all_before P Q log = list_all (\<lambda>e. \<not> P e) (dropWhile (\<lambda>e. \<not> Q e) log)"

text \<open>The sink an outcome leaves behind.\<close>

fun sink_of :: "'s outcome \<Rightarrow> 's" where
  "sink_of (Done s) = s"
| "sink_of (Abort e s) = s"

text \<open>The two calls that put a host into the group of one tag.\<close>

definition tag_group_events :: "string \<Rightarrow> string \<times> pyval \<Rightarrow> event list" where
  "tag_group_events hostname kv =
     [AddGroup (tag_group_name (fst kv) (snd kv)), AddChild (tag_group_name (fst kv) (snd kv)) hostname]"

section \<open>Example inputs\<close>

text \<open>The record of the specification's example.\<close>

definition example_vm :: vm where
  "example_vm =
     \<lparr> VmId = PStr ''i-1'', PublicIp = PStr ''1.2.3.4'', PrivateIp = PNone,
       State = PStr ''running'', VmType = PNone, Placement = None,
       Tags = [\<lparr>Key = ''Name'', Value = Some (PStr ''web:1'')\<rparr>] \<rparr>"

text \<open>A configuration file that gives the credentials and nothing else.\<close>

definition example_config :: config where
  "example_config =
     \<lparr> cfg_access_key = Some (PStr ''AK''), cfg_secret_key = Some (PStr ''SK''),
       cfg_region = None, cfg_filters = None, cfg_hostname_variable = None,
       cfg_ip_preference = None, cfg_group_by = None, cfg_compose = None,
       cfg_groups = None, cfg_keyed_groups = None, cfg_strict = None \<rparr>"

text \<open>A provider that answers every call with one final page.\<close>

definition single_page :: "vm list \<Rightarrow> nat \<Rightarrow> error + response" where
  "single_page vms n = Inr \<lparr>Vms = vms, NextPageToken = PNone\<rparr>"

text \<open>A second record: private address only, a placement, a repeated tag key and a tag without value.\<close>

definition example_vm_private :: vm where
  "example_vm_private =
     \<lparr> VmId = PStr ''i-2'', PublicIp = PNone, PrivateIp = PStr ''10.0.0.5'',
       State = PStr ''stopped'', VmType = PStr ''tinav5.c2r4p1'',
       Placement = Some \<lparr>SubregionName = PStr ''eu-west-2a''\<rparr>,
       Tags = [\<lparr>Key = ''env'', Value = Some (PStr ''prod/eu west'')\<rparr>,
               \<lparr>Key = ''owner'', Value = None\<rparr>,
               \<lparr>Key = ''env'', Value = Some (PStr ''dev'')\<rparr>] \<rparr>"

text \<open>A provider with two pages; the second ends the listing with an empty token.\<close>

definition two_pages :: "nat \<Rightarrow> error + response" where
  "two_pages n =
     (if n = 0 then Inr \<lparr>Vms = [example_vm], NextPageToken = PStr ''t1''\<rparr>
      else if n = 1 then Inr \<lparr>Vms = [example_vm_private], NextPageToken = PStr []\<rparr>
      else Inl (ProviderError ''unexpected call''))"

text \<open>
  The specification's example: the record \<open>example_vm\<close> under the tag strategy, the
  \<^verbatim>\<open>prefer_public\<close> policy and the dimensions \<^verbatim>\<open>tags\<close> and \<^verbatim>\<open>state\<close>, with the calls it makes
  on an empty sink.
\<close>

definition example_host_vars :: "pyobj dict" where
  "example_host_vars =
     [(''ansible_host'', Atom (PStr ''1.2.3.4'')), (''outscale_vm_id'', Atom (PStr ''i-1'')),
      (''outscale_state'', Atom (PStr ''running'')),
      (''outscale_tags'', Dict [(''Name'', PStr ''web:1'')])]"

definition example_options :: options where
  "example_options =
     get_options (example_config\<lparr>cfg_ip_preference := Some (PStr ''prefer_public''),
                                 cfg_group_by := Some [''tags'', ''state'']\<rparr>) Map.empty"

definition example_log :: "event list" where
  "example_log =
     [AddHost ''web:1'',
      SetVariable ''web:1'' ''ansible_host'' (Atom (PStr ''1.2.3.4'')),
      SetVariable ''web:1'' ''outscale_vm_id'' (Atom (PStr ''i-1'')),
      SetVariable ''web:1'' ''outscale_state'' (Atom (PStr ''running'')),
      SetVariable ''web:1'' ''outscale_vm_type'' (Atom PNone),
      SetVariable ''web:1'' ''outscale_subregion'' (Atom PNone),
      SetVariable ''web:1'' ''outscale_tags'' (Dict [(''Name'', PStr ''web:1'')]),
      SetCompositeVars (YDict []) example_host_vars ''web:1'' (YBool False),
      AddHostToComposedGroups (YDict []) example_host_vars ''web:1'' (YBool False),
      AddHostToKeyedGroups (YList []) example_host_vars ''web:1'' (YBool False),
      AddGroup ''tag_Name_web_1'', AddChild ''tag_Name_web_1'' ''web:1'',
      AddGroup ''state_running'', AddChild ''state_running'' ''web:1'']"

section \<open>Properties of the record loop\<close>

lemma determine_hostname_rebind:
  "determine_hostname hv vm None = Some h \<Longrightarrow> determine_hostname hv vm hn = Some h"
  by (auto simp: determine_hostname_def split: if_splits)

lemma determine_hostname_unrecognised:
  "hv \<notin> PStr ` set documented_hostname_variable_choices \<Longrightarrow> determine_hostname hv vm hn = hn"
  by (simp add: determine_hostname_def documented_hostname_variable_choices_def)

lemma process_vm_skip:
  "determine_hostname (opt_hostname_variable opts) vm None = Some h \<Longrightarrow> \<not> truthy h \<Longrightarrow>
   process_vm inventory opts vm hn s = (Some h, Done s)"
  using determine_hostname_rebind[of "opt_hostname_variable opts" vm h hn]
  by (simp add: process_vm_def)



lemma process_vm_invalid_ip:
  assumes "opt_ip_preference opts \<notin> PStr ` set documented_ip_preference_choices"
    and "determine_hostname (opt_hostname_variable opts) vm None = Some h" and "truthy h"
  shows "process_vm inventory opts vm hn s =
    (Some h, Abort (AnsibleError (''Invalid parameter value for ip_preference: '' @ py_str (opt_ip_preference opts)))
       (add_host inventory (py_str h) s))"
proof -
  have hn: "determine_hostname (opt_hostname_variable opts) vm hn = Some h"
    by (rule determine_hostname_rebind) (rule assms(2))
  have sel: "select_ansible_host (opt_ip_preference opts) vm =
      Inl (AnsibleError (''Invalid parameter value for ip_preference: '' @ py_str (opt_ip_preference opts)))"
    using assms(1) by (simp add: select_ansible_host_def documented_ip_preference_choices_def Let_def)
  show ?thesis
    by (simp add: process_vm_def hn sel assms(3))
qed

lemma process_vms_first_invalid_ip:
  assumes "opt_ip_preference opts \<notin> PStr ` set documented_ip_preference_choices"
    and "\<forall>v\<in>set pre. \<exists>h'. determine_hostname (opt_hostname_variable opts) v None = Some h' \<and> \<not> truthy h'"
    and "determine_hostname (opt_hostname_variable opts) vm None = Some h" and "truthy h"
  shows "process_vms inventory opts (pre @ vm # post) hn s =
    Abort (AnsibleError (''Invalid parameter value for ip_preference: '' @ py_str (opt_ip_preference opts)))
       (add_host inventory (py_str h) s)"
  using assms(2)
proof (induction pre arbitrary: hn)
  case Nil
  show ?case by (simp add: process_vm_invalid_ip[OF assms(1,3,4)])
next
  case (Cons v pre)
  from Cons.prems obtain h'
    where h': "determine_hostname (opt_hostname_variable opts) v None = Some h'" "\<not> truthy h'"
    by auto
  have step: "process_vm inventory opts v hn s = (Some h', Done s)"
    by (rule process_vm_skip[OF h'])
  have rest: "process_vms inventory opts (pre @ vm # post) (Some h') s =
    Abort (AnsibleError (''Invalid parameter value for ip_preference: '' @ py_str (opt_ip_preference opts)))
       (add_host inventory (py_str h) s)"
    by (rule Cons.IH) (use Cons.prems in simp)
  show ?case by (simp add: step rest)
qed

lemma parse_processes:
  assumes "read_config_data config = Inr config"
    "HAS_OSC_SDK" "truthy (opt_access_key (get_options config env))"
    "truthy (opt_secret_key (get_options config env))"
    "fetch_vms gw (opt_filters (get_options config env)) = Some (Inr (vms, calls))"
  shows "parse inventory HAS_OSC_SDK config env gw s =
     Some (process_vms inventory (get_options config env) vms None s)"
  using assms by (simp add: parse_def Let_def)

lemma parse_refused:
  "read_config_data config = Inl e \<Longrightarrow> parse inventory HAS_OSC_SDK config env gw s = Some (Abort e s)"
  by (simp add: parse_def)

lemma read_config_data_cases:
  "read_config_data config = Inr config \<or> (\<exists>opt. read_config_data config = Inl (AnsibleOptionsError opt))"
  by (simp add: read_config_data_def)

lemma read_config_data_hostname_variable:
  "cfg_hostname_variable config = Some (PStr v) \<Longrightarrow> v \<notin> set documented_hostname_variable_choices \<Longrightarrow>
     \<exists>opt. read_config_data config = Inl (AnsibleOptionsError opt)"
  by (simp add: read_config_data_def choice_accepted_def)


lemma accepted_hostname_variable:
  assumes "read_config_data config = Inr config"
    and "opt_hostname_variable (get_options config env)
           \<notin> PStr ` set documented_hostname_variable_choices"
  shows "cfg_hostname_variable config = Some PNone"
proof (cases "cfg_hostname_variable config")
  case None
  then show ?thesis
    using assms(2) by (simp add: get_options_def config_get_def documented_hostname_variable_choices_def)
next
  case (Some v)
  have ok: "choice_accepted documented_hostname_variable_choices (cfg_hostname_variable config)"
    using assms(1) by (simp add: read_config_data_def split: if_splits)
  show ?thesis
  proof (cases v)
    case PNone
    with Some show ?thesis by simp
  next
    case (PStr x)
    with Some ok have "x \<in> set documented_hostname_variable_choices"
      by (simp add: choice_accepted_def)
    with Some PStr assms(2) show ?thesis
      by (simp add: get_options_def config_get_def)
  qed
qed


section \<open>The options and the fetch of the examples\<close>

lemma fetch_vms_single_page:
  "fetch_vms (single_page vms) filters =
     Some (Inr (vms, [\<lparr>param_Filters = filters, param_NextPageToken = None\<rparr>]))"
  unfolding fetch_vms_def
  by (subst fetch_loop.simps) (simp add: single_page_def)

lemma example_config_accepted: "read_config_data example_config = Inr example_config"
  by (simp add: read_config_data_def choice_accepted_def choices_accepted_def example_config_def)

lemma example_config_options:
  "get_options example_config Map.empty =
     \<lparr> opt_access_key = PStr ''AK'', opt_secret_key = PStr ''SK'', opt_region = PStr ''eu-west-2'',
       opt_filters = YDict [], opt_hostname_variable = PStr ''tag_Name'',
       opt_ip_preference = PStr ''public_or_private'',
       opt_group_by = [''tags'', ''region'', ''subregion'', ''vm_type'', ''state''],
       opt_compose = YDict [], opt_groups = YDict [], opt_keyed_groups = YList [],
       opt_strict = YBool False \<rparr>"
  by (simp add: get_options_def example_config_def config_get_def py_or_def getenv_def)

section \<open>Region resolution\<close>

text \<open>
  Line 103 is \<^verbatim>\<open>config.get('region', 'eu-west-2') or os.getenv('OSC_REGION')\<close>. When the file
  omits the key, the left operand is the built-in default, which is truthy, so the
  environment is not read; it is read only for a region that is present and null or empty.
\<close>

lemma region_omitted_ignores_env:
  "cfg_region config = None \<Longrightarrow>
     opt_region (get_options config env) = PStr documented_region_default"
  by (simp add: get_options_def config_get_def py_or_def documented_region_default_def)

lemma region_empty_reads_env:
  "cfg_region config = Some PNone \<or> cfg_region config = Some (PStr []) \<Longrightarrow>
     opt_region (get_options config env) = getenv env documented_region_env"
  by (auto simp: get_options_def config_get_def py_or_def documented_region_env_def)

text \<open>
  C8: with a configuration that omits \<^verbatim>\<open>region\<close> and the environment variable
  \<^verbatim>\<open>OSC_REGION\<close> set to \<^verbatim>\<open>us-east-2\<close>, the region the code resolves, and passes to the
  gateway, is the built-in \<^verbatim>\<open>eu-west-2\<close>: the environment value is not used.
\<close>

theorem region_env_fallback_unused:
  "cfg_region example_config = None \<and>
   getenv [''OSC_REGION'' \<mapsto> ''us-east-2''] documented_region_env = PStr ''us-east-2'' \<and>
   opt_region (get_options example_config [''OSC_REGION'' \<mapsto> ''us-east-2'']) = PStr ''eu-west-2'' \<and>
   map_of (gw_params (get_options example_config [''OSC_REGION'' \<mapsto> ''us-east-2''])) ''region''
     = Some (PStr ''eu-west-2'')"
  by (simp add: get_options_def example_config_def config_get_def py_or_def getenv_def
      documented_region_env_def gw_params_def Let_def)

section \<open>An unrecognised hostname strategy\<close>

text \<open>
  C9 as stated fails: with \<^verbatim>\<open>hostname_variable: name\<close> the run does not reach the loop. The
  value is refused when the configuration is read, a configuration error, and the sink
  is untouched.
\<close>

theorem unrecognised_hostname_variable_counterexample:
  "parse recorder True (example_config\<lparr>cfg_hostname_variable := Some (PStr ''name'')\<rparr>) Map.empty
      (single_page [example_vm]) [] = Some (Abort (AnsibleOptionsError ''hostname_variable'') [])
   \<and> parse recorder True (example_config\<lparr>cfg_hostname_variable := Some (PStr ''name'')\<rparr>) Map.empty
      (single_page [example_vm]) [] \<noteq> Some (Abort (UnboundLocalError ''hostname'') [])"
  by (simp add: parse_def read_config_data_def choice_accepted_def example_config_def
        documented_hostname_variable_choices_def)

text \<open>
  C9, amended: a \<^verbatim>\<open>hostname_variable\<close> that is configured, not null and none of the four
  choices is refused with a configuration error when the configuration is read, before
  any fetch, whatever the rest of the run would be. A \<^verbatim>\<open>hostname_variable\<close> that is present
  and null passes that check: then no branch assigns the local \<open>hostname\<close>, and processing
  the first fetched record aborts the run with \<^verbatim>\<open>UnboundLocalError\<close>, the sink untouched.
  An accepted configuration reads an unrecognised strategy in this case only.
\<close>

theorem unrecognised_hostname_variable_refused_or_unbound:
  "(cfg_hostname_variable file = Some (PStr v) \<and> v \<notin> set documented_hostname_variable_choices
      \<longrightarrow> (\<exists>opt. parse inventory any_sdk file any_env any_gw s
                   = Some (Abort (AnsibleOptionsError opt) s)))
   \<and> (read_config_data config = Inr config \<and> cfg_hostname_variable config = Some PNone
        \<and> HAS_OSC_SDK
        \<and> truthy (opt_access_key (get_options config env))
        \<and> truthy (opt_secret_key (get_options config env))
        \<and> fetch_vms gw (opt_filters (get_options config env)) = Some (Inr (vm # vms, calls))
      \<longrightarrow> process_vm inventory (get_options config env) vm None s
             = (None, Abort (UnboundLocalError ''hostname'') s)
          \<and> parse inventory HAS_OSC_SDK config env gw s
             = Some (Abort (UnboundLocalError ''hostname'') s))
   \<and> (read_config_data config = Inr config
        \<and> opt_hostname_variable (get_options config env)
             \<notin> PStr ` set documented_hostname_variable_choices
      \<longrightarrow> cfg_hostname_variable config = Some PNone)"
proof -
  have refused: "\<exists>opt. parse inventory any_sdk file any_env any_gw s
                   = Some (Abort (AnsibleOptionsError opt) s)"
    if configured: "cfg_hostname_variable file = Some (PStr v)"
      and other: "v \<notin> set documented_hostname_variable_choices"
  proof -
    obtain opt where "read_config_data file = Inl (AnsibleOptionsError opt)"
      using read_config_data_hostname_variable[OF configured other] by (elim exE)
    then have "parse inventory any_sdk file any_env any_gw s = Some (Abort (AnsibleOptionsError opt) s)"
      by (rule parse_refused)
    then show ?thesis by (rule exI)
  qed
  have unbound: "process_vm inventory (get_options config env) vm None s
             = (None, Abort (UnboundLocalError ''hostname'') s)
          \<and> parse inventory HAS_OSC_SDK config env gw s
             = Some (Abort (UnboundLocalError ''hostname'') s)"
    if ok: "read_config_data config = Inr config"
      and null: "cfg_hostname_variable config = Some PNone"
      and sdk: "HAS_OSC_SDK"
      and ak: "truthy (opt_access_key (get_options config env))"
      and sk: "truthy (opt_secret_key (get_options config env))"
      and fetched: "fetch_vms gw (opt_filters (get_options config env)) = Some (Inr (vm # vms, calls))"
  proof -
    have hv: "opt_hostname_variable (get_options config env) = PNone"
      using null by (simp add: get_options_def config_get_def)
    have none: "determine_hostname (opt_hostname_variable (get_options config env)) vm None = None"
      by (simp add: hv determine_hostname_def)
    have first: "process_vm inventory (get_options config env) vm None s
           = (None, Abort (UnboundLocalError ''hostname'') s)"
      by (simp add: process_vm_def none)
    have "parse inventory HAS_OSC_SDK config env gw s =
       Some (process_vms inventory (get_options config env) (vm # vms) None s)"
      by (rule parse_processes[OF ok sdk ak sk fetched])
    then show ?thesis by (simp add: first)
  qed
  have only_null: "cfg_hostname_variable config = Some PNone"
    if "read_config_data config = Inr config"
      and "opt_hostname_variable (get_options config env)
             \<notin> PStr ` set documented_hostname_variable_choices"
    by (rule accepted_hostname_variable[OF that])
  show ?thesis
  proof (intro conjI impI)
    assume a: "cfg_hostname_variable file = Some (PStr v)
        \<and> v \<notin> set documented_hostname_variable_choices"
    show "\<exists>opt. parse inventory any_sdk file any_env any_gw s
                   = Some (Abort (AnsibleOptionsError opt) s)"
      by (rule refused[OF a[THEN conjunct1] a[THEN conjunct2]])
  next
    assume a: "read_config_data config = Inr config
        \<and> opt_hostname_variable (get_options config env)
             \<notin> PStr ` set documented_hostname_variable_choices"
    show "cfg_hostname_variable config = Some PNone"
      by (rule only_null[OF a[THEN conjunct1] a[THEN conjunct2]])
  next
    assume hyps: "read_config_data config = Inr config \<and> cfg_hostname_variable config = Some PNone
        \<and> HAS_OSC_SDK
        \<and> truthy (opt_access_key (get_options config env))
        \<and> truthy (opt_secret_key (get_options config env))
        \<and> fetch_vms gw (opt_filters (get_options config env)) = Some (Inr (vm # vms, calls))"
    have both: "process_vm inventory (get_options config env) vm None s
             = (None, Abort (UnboundLocalError ''hostname'') s)
          \<and> parse inventory HAS_OSC_SDK config env gw s
             = Some (Abort (UnboundLocalError ''hostname'') s)"
      by (rule unbound) (use hyps in blast)+
    show "process_vm inventory (get_options config env) vm None s
             = (None, Abort (UnboundLocalError ''hostname'') s)"
      by (rule both[THEN conjunct1])
    show "parse inventory HAS_OSC_SDK config env gw s
             = Some (Abort (UnboundLocalError ''hostname'') s)"
      by (rule both[THEN conjunct2])
  qed
qed

text \<open>
  C9 amended, for \<^verbatim>\<open>hostname_variable: name\<close> and for a null \<^verbatim>\<open>hostname_variable\<close>, with one
  fetched record.
\<close>

theorem unrecognised_hostname_variable_refused_or_unbound_witness:
  "(\<exists>opt. parse recorder True (example_config\<lparr>cfg_hostname_variable := Some (PStr ''name'')\<rparr>)
            Map.empty (single_page [example_vm]) [] = Some (Abort (AnsibleOptionsError opt) []))
   \<and> read_config_data (example_config\<lparr>cfg_hostname_variable := Some PNone\<rparr>)
        = Inr (example_config\<lparr>cfg_hostname_variable := Some PNone\<rparr>)
   \<and> parse recorder True (example_config\<lparr>cfg_hostname_variable := Some PNone\<rparr>) Map.empty
        (single_page [example_vm]) [] = Some (Abort (UnboundLocalError ''hostname'') [])"
proof -
  let ?f = "example_config\<lparr>cfg_hostname_variable := Some (PStr ''name'')\<rparr>"
  let ?c = "example_config\<lparr>cfg_hostname_variable := Some PNone\<rparr>"
  have f1: "cfg_hostname_variable ?f = Some (PStr ''name'')" by simp
  have f2: "''name'' \<notin> set documented_hostname_variable_choices"
    by (simp add: documented_hostname_variable_choices_def)
  have ok: "read_config_data ?c = Inr ?c"
    by (simp add: read_config_data_def choice_accepted_def choices_accepted_def example_config_def)
  have null: "cfg_hostname_variable ?c = Some PNone" by simp
  have opts: "opt_access_key (get_options ?c Map.empty) = PStr ''AK''"
    "opt_secret_key (get_options ?c Map.empty) = PStr ''SK''"
    "opt_filters (get_options ?c Map.empty) = YDict []"
    by (simp_all add: get_options_def example_config_def config_get_def py_or_def getenv_def)
  have ak: "truthy (opt_access_key (get_options ?c Map.empty))" by (simp add: opts)
  have sk: "truthy (opt_secret_key (get_options ?c Map.empty))" by (simp add: opts)
  have fetched: "fetch_vms (single_page [example_vm]) (opt_filters (get_options ?c Map.empty)) =
      Some (Inr (example_vm # [], [\<lparr>param_Filters = YDict [], param_NextPageToken = None\<rparr>]))"
    by (simp add: opts fetch_vms_single_page)
  note inst = unrecognised_hostname_variable_refused_or_unbound[of ?f "''name''" recorder True
      Map.empty "single_page [example_vm]" "[]" ?c True Map.empty "single_page [example_vm]"
      example_vm "[]" "[\<lparr>param_Filters = YDict [], param_NextPageToken = None\<rparr>]"]
  have a: "\<exists>opt. parse recorder True ?f Map.empty (single_page [example_vm]) []
             = Some (Abort (AnsibleOptionsError opt) [])"
    using inst[THEN conjunct1] f1 f2 by (elim impE) (intro conjI, assumption+)
  have b: "parse recorder True ?c Map.empty (single_page [example_vm]) []
             = Some (Abort (UnboundLocalError ''hostname'') [])"
    using inst[THEN conjunct2, THEN conjunct1] ok null ak sk fetched
    by (elim impE) (intro conjI TrueI, assumption+, elim conjE, assumption)
  from a ok b show ?thesis
    by (intro conjI)
qed

section \<open>Records without a hostname\<close>

lemma determine_hostname_sources:
  assumes "(hv = PStr ''vm_id'' \<and> src = VmId vm) \<or> (hv = PStr ''public_ip'' \<and> src = PublicIp vm)
      \<or> (hv = PStr ''private_ip'' \<and> src = PrivateIp vm)
      \<or> (hv = PStr ''tag_Name'' \<and> src = dict_get (flatten_tags (Tags vm)) ''Name'' (VmId vm))"
  shows "determine_hostname hv vm hn = Some src"
  using assms by (auto simp: determine_hostname_def)

text \<open>
  C3: under each of the four hostname strategies, a record whose chosen source is
  \<^verbatim>\<open>None\<close> or the empty string is skipped: the sink is returned as it was (on the recording
  sink, no call is logged), no error is raised, and the loop goes on with the next record,
  whatever the strictness flag.
\<close>

theorem empty_hostname_skips_record:
  assumes "(opt_hostname_variable opts = PStr ''vm_id'' \<and> src = VmId vm)
      \<or> (opt_hostname_variable opts = PStr ''public_ip'' \<and> src = PublicIp vm)
      \<or> (opt_hostname_variable opts = PStr ''private_ip'' \<and> src = PrivateIp vm)
      \<or> (opt_hostname_variable opts = PStr ''tag_Name''
           \<and> src = dict_get (flatten_tags (Tags vm)) ''Name'' (VmId vm))"
    and "src = PNone \<or> src = PStr []"
  shows "process_vm inventory (opts\<lparr>opt_strict := strict\<rparr>) vm hostname s = (Some src, Done s)
       \<and> process_vms inventory (opts\<lparr>opt_strict := strict\<rparr>) (vm # vms) hostname s
           = process_vms inventory (opts\<lparr>opt_strict := strict\<rparr>) vms (Some src) s
       \<and> process_vm recorder (opts\<lparr>opt_strict := strict\<rparr>) vm hostname log = (Some src, Done log)"
proof -
  let ?opts = "opts\<lparr>opt_strict := strict\<rparr>"
  have src: "determine_hostname (opt_hostname_variable ?opts) vm None = Some src"
    by (rule determine_hostname_sources) (use assms(1) in simp)
  have falsy: "\<not> truthy src"
    using assms(2) by auto
  have skip: "process_vm inv' ?opts vm hostname s' = (Some src, Done s')" for inv' :: "'x inventory" and s'
    by (rule process_vm_skip[OF src falsy])
  show ?thesis
    by (simp add: skip)
qed

text \<open>C3, for the example record under \<^verbatim>\<open>private_ip\<close> with \<^verbatim>\<open>strict\<close> set: it has no private address.\<close>

theorem empty_hostname_skips_record_witness:
  "process_vm recorder (get_options (example_config\<lparr>cfg_hostname_variable := Some (PStr ''private_ip'')\<rparr>) Map.empty\<lparr>opt_strict := YBool True\<rparr>)
      example_vm None [AddHost ''other''] = (Some PNone, Done [AddHost ''other''])"
proof -
  let ?opts = "get_options (example_config\<lparr>cfg_hostname_variable := Some (PStr ''private_ip'')\<rparr>) Map.empty"
  have hv: "opt_hostname_variable ?opts = PStr ''private_ip''"
    by (simp add: get_options_def example_config_def config_get_def)
  have src: "PNone = PrivateIp example_vm"
    by (simp add: example_vm_def)
  show ?thesis
    using empty_hostname_skips_record[of ?opts PNone example_vm recorder "YBool True" None "[AddHost ''other'']" "[]" "[AddHost ''other'']"]
      hv src
    by simp
qed

section \<open>An invalid address policy\<close>

lemma determine_hostname_total:
  "determine_hostname hv vm None = Some h \<Longrightarrow> \<exists>h'. determine_hostname hv v None = Some h'"
  by (auto simp: determine_hostname_def split: if_splits)

lemma process_vms_some_invalid_ip:
  assumes "opt_ip_preference opts \<notin> PStr ` set documented_ip_preference_choices"
    and "\<exists>v\<in>set vms. \<exists>h. determine_hostname (opt_hostname_variable opts) v None = Some h \<and> truthy h"
  shows "\<exists>h. truthy h \<and> process_vms inventory opts vms hn s =
    Abort (AnsibleError (''Invalid parameter value for ip_preference: '' @ py_str (opt_ip_preference opts)))
       (add_host inventory (py_str h) s)"
proof -
  let ?P = "\<lambda>v. \<exists>h. determine_hostname (opt_hostname_variable opts) v None = Some h \<and> truthy h"
  from assms(2) obtain pre vm post
    where split: "vms = pre @ vm # post" and vm: "?P vm" and pre: "\<forall>v\<in>set pre. \<not> ?P v"
    using split_list_first_prop[of vms ?P] by blast
  from vm obtain h
    where h: "determine_hostname (opt_hostname_variable opts) vm None = Some h" "truthy h"
    by blast
  have skipped: "\<forall>v\<in>set pre. \<exists>h'. determine_hostname (opt_hostname_variable opts) v None = Some h'
      \<and> \<not> truthy h'"
  proof
    fix v assume "v \<in> set pre"
    then have no: "\<not> ?P v" using pre by blast
    obtain h' where "determine_hostname (opt_hostname_variable opts) v None = Some h'"
      using determine_hostname_total[OF h(1)] by blast
    with no show "\<exists>h'. determine_hostname (opt_hostname_variable opts) v None = Some h' \<and> \<not> truthy h'"
      by blast
  qed
  have "process_vms inventory opts (pre @ vm # post) hn s =
      Abort (AnsibleError (''Invalid parameter value for ip_preference: '' @ py_str (opt_ip_preference opts)))
       (add_host inventory (py_str h) s)"
    by (rule process_vms_first_invalid_ip[OF assms(1) skipped h])
  with split h(2) show ?thesis by blast
qed



text \<open>
  C1: a configuration that omits \<^verbatim>\<open>ip_preference\<close> makes the code read
  \<^verbatim>\<open>public_or_private\<close>, which is neither the declared default \<^verbatim>\<open>prefer_public\<close> nor any
  declared choice; every run of an accepted configuration that fetches a record with a
  resolvable hostname then aborts with the invalid-value error.
\<close>

theorem default_ip_preference_aborts:
  assumes "cfg_ip_preference config = None"
    and "read_config_data config = Inr config"
    and "HAS_OSC_SDK"
    and "truthy (opt_access_key (get_options config env))"
    and "truthy (opt_secret_key (get_options config env))"
    and "fetch_vms gw (opt_filters (get_options config env)) = Some (Inr (vms, calls))"
    and "\<exists>v\<in>set vms. \<exists>h. determine_hostname (opt_hostname_variable (get_options config env)) v None
            = Some h \<and> truthy h"
  shows "opt_ip_preference (get_options config env) = PStr ''public_or_private''
       \<and> documented_ip_preference_default = ''prefer_public''
       \<and> ''public_or_private'' \<notin> set documented_ip_preference_choices
       \<and> (\<exists>h. truthy h \<and> parse inventory HAS_OSC_SDK config env gw s =
             Some (Abort (AnsibleError ''Invalid parameter value for ip_preference: public_or_private'')
                     (add_host inventory (py_str h) s)))"
proof -
  have ip: "opt_ip_preference (get_options config env) = PStr ''public_or_private''"
    using assms(1) by (simp add: get_options_def config_get_def)
  have invalid: "opt_ip_preference (get_options config env)
      \<notin> PStr ` set documented_ip_preference_choices"
    by (simp add: ip documented_ip_preference_choices_def)
  have run: "parse inventory HAS_OSC_SDK config env gw s =
      Some (process_vms inventory (get_options config env) vms None s)"
    by (rule parse_processes) (rule assms)+
  obtain h where h: "truthy h"
    "process_vms inventory (get_options config env) vms None s =
       Abort (AnsibleError (''Invalid parameter value for ip_preference: ''
                @ py_str (opt_ip_preference (get_options config env))))
         (add_host inventory (py_str h) s)"
    using process_vms_some_invalid_ip[OF invalid assms(7), of inventory None s] by blast
  have "parse inventory HAS_OSC_SDK config env gw s =
             Some (Abort (AnsibleError ''Invalid parameter value for ip_preference: public_or_private'')
                     (add_host inventory (py_str h) s))"
    by (simp add: run h(2) ip)
  with h(1) have ex: "\<exists>h. truthy h \<and> parse inventory HAS_OSC_SDK config env gw s =
             Some (Abort (AnsibleError ''Invalid parameter value for ip_preference: public_or_private'')
                     (add_host inventory (py_str h) s))"
    by blast
  show ?thesis
    using ex by (simp add: ip documented_ip_preference_default_def documented_ip_preference_choices_def)
qed

text \<open>
  C10: the record on which the invalid-value error is raised has already been added:
  the sink of the aborted iteration is the previous sink after \<^verbatim>\<open>add_host\<close>, with no
  \<^verbatim>\<open>set_variable\<close> call. On the recording sink started empty, the log is that one call and
  every variable of the host reads \<^verbatim>\<open>None\<close>.
\<close>

theorem invalid_ip_preference_leaves_bare_host:
  assumes "opt_ip_preference opts \<notin> PStr ` set documented_ip_preference_choices"
    and "determine_hostname (opt_hostname_variable opts) vm None = Some h"
    and "truthy h"
  shows "process_vm inventory opts vm hostname s =
           (Some h, Abort (AnsibleError (''Invalid parameter value for ip_preference: ''
                                           @ py_str (opt_ip_preference opts)))
                      (add_host inventory (py_str h) s))
       \<and> process_vm recorder opts vm hostname [] =
           (Some h, Abort (AnsibleError (''Invalid parameter value for ip_preference: ''
                                           @ py_str (opt_ip_preference opts)))
                      [AddHost (py_str h)])
       \<and> get_host_var recorder [AddHost (py_str h)] (py_str h) var = Atom PNone"
proof -
  have abort: "process_vm inv' opts vm hostname s' =
           (Some h, Abort (AnsibleError (''Invalid parameter value for ip_preference: ''
                                           @ py_str (opt_ip_preference opts)))
                      (add_host inv' (py_str h) s'))" for inv' :: "'x inventory" and s'
    by (rule process_vm_invalid_ip[OF assms])
  show ?thesis
    by (simp add: abort) (simp add: recorder_def)
qed

lemma example_vm_tag_name:
  "determine_hostname (PStr ''tag_Name'') example_vm None = Some (PStr ''web:1'')"
  by (simp add: determine_hostname_def example_vm_def flatten_tags_def dict_get_def)

text \<open>C10, for the example record and the default options.\<close>

theorem invalid_ip_preference_leaves_bare_host_witness:
  "process_vm recorder (get_options example_config Map.empty) example_vm None [] =
     (Some (PStr ''web:1''),
      Abort (AnsibleError ''Invalid parameter value for ip_preference: public_or_private'')
        [AddHost ''web:1''])
   \<and> get_host_var recorder [AddHost ''web:1''] ''web:1'' ''outscale_vm_id'' = Atom PNone"
proof -
  let ?opts = "get_options example_config Map.empty"
  have h1: "opt_ip_preference ?opts \<notin> PStr ` set documented_ip_preference_choices"
    by (simp add: example_config_options documented_ip_preference_choices_def)
  have h2: "determine_hostname (opt_hostname_variable ?opts) example_vm None = Some (PStr ''web:1'')"
    by (simp add: example_config_options example_vm_tag_name)
  have h3: "truthy (PStr ''web:1'')" by simp
  show ?thesis
    using invalid_ip_preference_leaves_bare_host[OF h1 h2 h3, of recorder None "[]" "''outscale_vm_id''"]
    by (simp add: example_config_options recorder_def)
qed

text \<open>C1, for the configuration with credentials only and the example record.\<close>

theorem default_ip_preference_aborts_witness:
  "cfg_ip_preference example_config = None
   \<and> (\<exists>h. truthy h \<and> parse recorder True example_config Map.empty (single_page [example_vm]) [] =
         Some (Abort (AnsibleError ''Invalid parameter value for ip_preference: public_or_private'')
                 [AddHost (py_str h)]))"
proof -
  let ?opts = "get_options example_config Map.empty"
  have h1: "cfg_ip_preference example_config = None"
    by (simp add: example_config_def)
  have h3: "truthy (opt_access_key ?opts)" by (simp add: example_config_options)
  have h4: "truthy (opt_secret_key ?opts)" by (simp add: example_config_options)
  have h5: "fetch_vms (single_page [example_vm]) (opt_filters ?opts) =
      Some (Inr ([example_vm], [\<lparr>param_Filters = YDict [], param_NextPageToken = None\<rparr>]))"
    by (simp add: example_config_options fetch_vms_single_page)
  have h6: "\<exists>v\<in>set [example_vm]. \<exists>h. determine_hostname (opt_hostname_variable ?opts) v None
            = Some h \<and> truthy h"
    by (simp add: example_config_options example_vm_tag_name)
  show ?thesis
    using default_ip_preference_aborts[OF h1 example_config_accepted TrueI h3 h4 h5 h6, of recorder "[]"] h1
    by (simp add: recorder_def)
qed


section \<open>Pagination\<close>

lemma fetch_loop_pages:
  assumes "pages \<noteq> []"
    and "\<forall>p\<in>set (butlast pages). truthy (NextPageToken p)"
    and "\<not> truthy (NextPageToken (last pages))"
    and "\<forall>i<length pages. gw (n + i) = Inr (pages ! i)"
    and "p0 = (if truthy tok then params\<lparr>param_NextPageToken := Some tok\<rparr> else params)"
  shows "fetch_loop gw n tok params vms calls =
     Some (Inr (vms @ concat (map Vms pages),
                calls @ p0 # map (\<lambda>p. p0\<lparr>param_NextPageToken := Some (NextPageToken p)\<rparr>)
                               (butlast pages)))"
  using assms
proof (induction pages arbitrary: n tok params vms calls p0)
  case Nil
  then show ?case by simp
next
  case (Cons p ps)
  have first: "gw n = Inr p"
    using Cons.prems(4) by force
  show ?case
  proof (cases "ps = []")
    case True
    then have "\<not> truthy (NextPageToken p)"
      using Cons.prems(3) by simp
    then show ?thesis
      using True first Cons.prems(5)
      by (subst fetch_loop.simps) (simp add: Let_def)
  next
    case False
    have more: "truthy (NextPageToken p)"
      using Cons.prems(2) False by simp
    have later: "\<forall>i<length ps. gw (Suc n + i) = Inr (ps ! i)"
    proof (intro allI impI)
      fix i assume "i < length ps"
      then have "gw (n + Suc i) = Inr ((p # ps) ! Suc i)"
        using Cons.prems(4) by (metis Suc_less_eq length_Cons)
      then show "gw (Suc n + i) = Inr (ps ! i)" by simp
    qed
    have inner: "\<forall>q\<in>set (butlast ps). truthy (NextPageToken q)"
      using Cons.prems(2) False by simp
    have final: "\<not> truthy (NextPageToken (last ps))"
      using Cons.prems(3) False by simp
    let ?p1 = "p0\<lparr>param_NextPageToken := Some (NextPageToken p)\<rparr>"
    have p1: "?p1 = (if truthy (NextPageToken p)
                     then p0\<lparr>param_NextPageToken := Some (NextPageToken p)\<rparr> else p0)"
      using more by simp
    have rec: "fetch_loop gw (Suc n) (NextPageToken p) p0 (vms @ Vms p) (calls @ [p0]) =
      Some (Inr ((vms @ Vms p) @ concat (map Vms ps),
                 (calls @ [p0]) @ ?p1 # map (\<lambda>q. ?p1\<lparr>param_NextPageToken := Some (NextPageToken q)\<rparr>)
                                          (butlast ps)))"
      by (rule Cons.IH[OF False inner final later p1])
    have unfold: "fetch_loop gw n tok params vms calls =
        fetch_loop gw (Suc n) (NextPageToken p) p0 (vms @ Vms p) (calls @ [p0])"
      using first more Cons.prems(5)
      by (subst fetch_loop.simps) (simp add: Let_def)
    show ?thesis
      using False by (simp add: unfold rec)
  qed
qed

text \<open>
  C4: when the provider answers the first \<open>N\<close> calls with \<open>N\<close> pages of which all but the
  last carry a truthy token and the last has none (absent, null or empty), the fetch loop
  returns: it makes \<open>N\<close> calls, the first without a token and each later one with the token
  of the page before, and the records are the pages' batches concatenated in order.
\<close>

theorem pagination_concatenates_pages:
  assumes "pages \<noteq> []"
    and "\<forall>p\<in>set (butlast pages). truthy (NextPageToken p)"
    and "\<not> truthy (NextPageToken (last pages))"
    and "\<forall>i<length pages. gw i = Inr (pages ! i)"
  shows "\<exists>calls. fetch_vms gw filters = Some (Inr (concat (map Vms pages), calls))
           \<and> length calls = length pages
           \<and> calls = \<lparr>param_Filters = filters, param_NextPageToken = None\<rparr>
                      # map (\<lambda>p. \<lparr>param_Filters = filters,
                                   param_NextPageToken = Some (NextPageToken p)\<rparr>) (butlast pages)"
proof -
  let ?p0 = "\<lparr>param_Filters = filters, param_NextPageToken = None\<rparr>"
  have p0: "?p0 = (if truthy PNone then ?p0\<lparr>param_NextPageToken := Some PNone\<rparr> else ?p0)"
    by simp
  have indices: "\<forall>i<length pages. gw (0 + i) = Inr (pages ! i)"
    using assms(4) by simp
  have "fetch_loop gw 0 PNone ?p0 [] [] =
     Some (Inr ([] @ concat (map Vms pages),
                [] @ ?p0 # map (\<lambda>p. ?p0\<lparr>param_NextPageToken := Some (NextPageToken p)\<rparr>)
                               (butlast pages)))"
    by (rule fetch_loop_pages[OF assms(1) assms(2) assms(3) indices p0])
  then show ?thesis
    using assms(1) by (simp add: fetch_vms_def)
qed

text \<open>C4, for two pages, the second with an empty token.\<close>

theorem pagination_concatenates_pages_witness:
  "fetch_vms two_pages (YDict []) =
     Some (Inr ([example_vm, example_vm_private],
                [\<lparr>param_Filters = YDict [], param_NextPageToken = None\<rparr>,
                 \<lparr>param_Filters = YDict [], param_NextPageToken = Some (PStr ''t1'')\<rparr>]))"
proof -
  let ?pages = "[\<lparr>Vms = [example_vm], NextPageToken = PStr ''t1''\<rparr>,
                 \<lparr>Vms = [example_vm_private], NextPageToken = PStr []\<rparr>]"
  have h1: "?pages \<noteq> []" by simp
  have h2: "\<forall>p\<in>set (butlast ?pages). truthy (NextPageToken p)" by simp
  have h3: "\<not> truthy (NextPageToken (last ?pages))" by simp
  have h4: "\<forall>i<length ?pages. two_pages i = Inr (?pages ! i)"
    by (simp add: two_pages_def less_Suc_eq)
  show ?thesis
    using pagination_concatenates_pages[OF h1 h2 h3 h4, of "YDict []"]
    by simp
qed

section \<open>Tag flattening\<close>

lemma valued_pairs_simps:
  "valued_pairs [] = []"
  "valued_pairs (t # ts) = (case Value t of None \<Rightarrow> valued_pairs ts | Some v \<Rightarrow> (Key t, v) # valued_pairs ts)"
  by (simp_all add: valued_pairs_def List.map_filter_simps split: option.splits)

lemma valued_pairs_append: "valued_pairs (ts @ us) = valued_pairs ts @ valued_pairs us"
  by (induction ts) (simp_all add: valued_pairs_simps split: option.splits)

lemma map_of_dict_set: "map_of (dict_set d k v) = (map_of d)(k \<mapsto> v)"
  by (induction d) (auto simp: fun_upd_twist)

lemma dict_set_fresh: "k \<notin> fst ` set d \<Longrightarrow> dict_set d k v = d @ [(k, v)]"
  by (induction d) auto

lemma keys_dict_set: "fst ` set (dict_set d k v) = insert k (fst ` set d)"
  by (simp add: dom_map_of_conv_image_fst[symmetric] map_of_dict_set)

lemma distinct_dict_set: "distinct (map fst d) \<Longrightarrow> distinct (map fst (dict_set d k v))"
proof (induction d)
  case Nil
  show ?case by simp
next
  case (Cons a d)
  obtain k' v' where a: "a = (k', v')" by (cases a)
  have "k' \<noteq> k \<Longrightarrow> k' \<notin> fst ` set (dict_set d k v)"
    using Cons.prems a by (simp add: keys_dict_set)
  then show ?case
    using Cons a by auto
qed

lemma fold_tags_pairs:
  "foldl (\<lambda>d tag. case Value tag of None \<Rightarrow> d | Some v \<Rightarrow> dict_set d (Key tag) v) d tags
     = foldl (\<lambda>d (k, v). dict_set d k v) d (valued_pairs tags)"
  by (induction tags arbitrary: d) (simp_all add: valued_pairs_simps split: option.splits)

lemma flatten_tags_pairs:
  "flatten_tags tags = foldl (\<lambda>d (k, v). dict_set d k v) [] (valued_pairs tags)"
  by (simp add: flatten_tags_def fold_tags_pairs)

lemma map_of_fold_pairs:
  "map_of (foldl (\<lambda>d (k, v). dict_set d k v) d kvs) = map_of (rev kvs @ d)"
proof (induction kvs arbitrary: d)
  case Nil
  show ?case by simp
next
  case (Cons kv kvs)
  obtain k v where kv: "kv = (k, v)" by (cases kv)
  have "map_of (rev kvs @ dict_set d k v) = map_of (rev kvs @ (k, v) # d)"
    by (simp add: map_of_dict_set map_add_def[symmetric] map_add_upd_left fun_eq_iff split: option.splits)
  then show ?case
    by (simp add: kv Cons.IH)
qed

lemma distinct_fold_pairs:
  "distinct (map fst d) \<Longrightarrow> distinct (map fst (foldl (\<lambda>d (k, v). dict_set d k v) d kvs))"
  by (induction kvs arbitrary: d) (auto simp: distinct_dict_set)

lemma fold_pairs_distinct:
  "distinct (map fst (d @ kvs)) \<Longrightarrow> foldl (\<lambda>d (k, v). dict_set d k v) d kvs = d @ kvs"
proof (induction kvs arbitrary: d)
  case Nil
  show ?case by simp
next
  case (Cons kv kvs)
  obtain k v where kv: "kv = (k, v)" by (cases kv)
  have fresh: "k \<notin> fst ` set d"
    using Cons.prems kv by auto
  have "distinct (map fst ((d @ [(k, v)]) @ kvs))"
    using Cons.prems kv by simp
  then have "foldl (\<lambda>d (k, v). dict_set d k v) (d @ [(k, v)]) kvs = (d @ [(k, v)]) @ kvs"
    by (rule Cons.IH)
  then show ?case
    by (simp add: kv dict_set_fresh[OF fresh])
qed

lemma keys_valued_pairs:
  "fst ` set (valued_pairs ts) = {Key u |u. u \<in> set ts \<and> Value u \<noteq> None}"
proof (induction ts)
  case Nil
  show ?case by (simp add: valued_pairs_simps)
next
  case (Cons t ts)
  show ?case
  proof (cases "Value t")
    case None
    then show ?thesis using Cons.IH by (auto simp: valued_pairs_simps)
  next
    case (Some v)
    then show ?thesis using Cons.IH by (auto simp: valued_pairs_simps)
  qed
qed

lemma map_of_flatten_tags: "map_of (flatten_tags ts) = map_of (rev (valued_pairs ts))"
  by (simp add: flatten_tags_pairs map_of_fold_pairs)

lemma flatten_tags_last_wins:
  assumes "Value t = Some v" and "\<forall>u\<in>set post. Key u = Key t \<longrightarrow> Value u = None"
  shows "map_of (flatten_tags (pre @ t # post)) (Key t) = Some v"
proof -
  have "Key t \<notin> fst ` set (valued_pairs post)"
    using assms(2) by (auto simp: keys_valued_pairs)
  then have later: "map_of (rev (valued_pairs post)) (Key t) = None"
    by (simp add: map_of_eq_None_iff)
  have "valued_pairs (pre @ t # post) = valued_pairs pre @ (Key t, v) # valued_pairs post"
    using assms(1) by (simp add: valued_pairs_append valued_pairs_simps)
  then show ?thesis
    by (simp add: map_of_flatten_tags map_add_def later)
qed

lemma flatten_tags_no_value:
  assumes "\<forall>u\<in>set ts. Key u = k \<longrightarrow> Value u = None"
  shows "map_of (flatten_tags ts) k = None"
proof -
  have "k \<notin> fst ` set (valued_pairs ts)"
    using assms by (auto simp: keys_valued_pairs)
  then show ?thesis
    by (simp add: map_of_flatten_tags map_of_eq_None_iff)
qed

text \<open>
  C6: in the flattened tag map a key has the value of its last tag that carries one; a
  tag without \<^verbatim>\<open>Value\<close> contributes nothing; the keys are unique; on a list whose valued
  keys are already unique the map is the list of its pairs; and under \<^verbatim>\<open>tag_Name\<close> the
  hostname is the map's \<^verbatim>\<open>Name\<close> entry, or \<^verbatim>\<open>VmId\<close> when the key is absent.
\<close>

theorem tag_flattening_last_value_wins:
  "(Value t = Some v \<and> (\<forall>u\<in>set post. Key u = Key t \<longrightarrow> Value u = None)
      \<longrightarrow> map_of (flatten_tags (pre @ t # post)) (Key t) = Some v)
   \<and> flatten_tags (pre @ \<lparr>Key = k, Value = None\<rparr> # post) = flatten_tags (pre @ post)
   \<and> ((\<forall>u\<in>set ts. Key u = k \<longrightarrow> Value u = None) \<longrightarrow> map_of (flatten_tags ts) k = None)
   \<and> distinct (map fst (flatten_tags ts))
   \<and> (distinct (map fst (valued_pairs us)) \<longrightarrow> flatten_tags us = valued_pairs us)
   \<and> determine_hostname (PStr ''tag_Name'') vm hostname =
        Some (case map_of (flatten_tags (Tags vm)) ''Name'' of
                Some name \<Rightarrow> name | None \<Rightarrow> VmId vm)"
proof -
  have last_wins: "Value t = Some v \<and> (\<forall>u\<in>set post. Key u = Key t \<longrightarrow> Value u = None)
      \<longrightarrow> map_of (flatten_tags (pre @ t # post)) (Key t) = Some v"
    using flatten_tags_last_wins[of t v post pre] by blast
  have dropped: "flatten_tags (pre @ \<lparr>Key = k, Value = None\<rparr> # post) = flatten_tags (pre @ post)"
    by (simp add: flatten_tags_pairs valued_pairs_append valued_pairs_simps)
  have absent: "(\<forall>u\<in>set ts. Key u = k \<longrightarrow> Value u = None) \<longrightarrow> map_of (flatten_tags ts) k = None"
    using flatten_tags_no_value[of ts k] by blast
  have keys: "distinct (map fst (flatten_tags ts))"
    unfolding flatten_tags_pairs by (rule distinct_fold_pairs) simp
  have unique: "distinct (map fst (valued_pairs us)) \<longrightarrow> flatten_tags us = valued_pairs us"
    using fold_pairs_distinct[of "[]" "valued_pairs us"] by (simp add: flatten_tags_pairs)
  have name: "determine_hostname (PStr ''tag_Name'') vm hostname =
        Some (case map_of (flatten_tags (Tags vm)) ''Name'' of
                Some name \<Rightarrow> name | None \<Rightarrow> VmId vm)"
    by (simp add: determine_hostname_def dict_get_def)
  from last_wins dropped absent keys unique name show ?thesis
    by (intro conjI)
qed

text \<open>C6, for the tags of the two example records.\<close>

theorem tag_flattening_last_value_wins_witness:
  "map_of (flatten_tags (Tags example_vm_private)) ''env'' = Some (PStr ''dev'')
   \<and> map_of (flatten_tags (Tags example_vm_private)) ''owner'' = None
   \<and> distinct (map fst (valued_pairs (Tags example_vm)))
   \<and> flatten_tags (Tags example_vm) = [(''Name'', PStr ''web:1'')]
   \<and> determine_hostname (PStr ''tag_Name'') example_vm None = Some (PStr ''web:1'')
   \<and> determine_hostname (PStr ''tag_Name'') example_vm_private None = Some (PStr ''i-2'')"
proof -
  let ?pre = "[\<lparr>Key = ''env'', Value = Some (PStr ''prod/eu west'')\<rparr>, \<lparr>Key = ''owner'', Value = None\<rparr>]"
  let ?t = "\<lparr>Key = ''env'', Value = Some (PStr ''dev'')\<rparr>"
  have tags: "Tags example_vm_private = ?pre @ ?t # []"
    by (simp add: example_vm_private_def)
  have pairs: "valued_pairs (Tags example_vm) = [(''Name'', PStr ''web:1'')]"
    by (simp add: example_vm_def valued_pairs_simps)
  have a: "map_of (flatten_tags (Tags example_vm_private)) ''env'' = Some (PStr ''dev'')"
    using tag_flattening_last_value_wins[of ?t "PStr ''dev''" "[]" ?pre "''owner''" "Tags example_vm_private" "Tags example_vm" example_vm None]
    by (simp add: tags)
  have b: "map_of (flatten_tags (Tags example_vm_private)) ''owner'' = None"
    using tag_flattening_last_value_wins[of ?t "PStr ''dev''" "[]" ?pre "''owner''" "Tags example_vm_private" "Tags example_vm" example_vm None]
    by (simp add: tags)
  have c: "flatten_tags (Tags example_vm) = [(''Name'', PStr ''web:1'')]"
    using tag_flattening_last_value_wins[of ?t "PStr ''dev''" "[]" ?pre "''owner''" "Tags example_vm_private" "Tags example_vm" example_vm None]
    by (simp add: pairs)
  have d: "determine_hostname (PStr ''tag_Name'') example_vm None = Some (PStr ''web:1'')"
    using tag_flattening_last_value_wins[of ?t "PStr ''dev''" "[]" ?pre "''owner''" "Tags example_vm_private" "Tags example_vm" example_vm None]
    by (simp add: c)
  have e: "determine_hostname (PStr ''tag_Name'') example_vm_private None = Some (PStr ''i-2'')"
    using tag_flattening_last_value_wins[of ?t "PStr ''dev''" "[]" ?pre "''Name''" "Tags example_vm_private" "Tags example_vm" example_vm_private None]
    by (simp add: tags) (simp add: example_vm_private_def)
  from a b c d e show ?thesis
    by (simp add: pairs)
qed

section \<open>The calls of one record on the recording sink\<close>

lemma set_variables_recorder:
  "set_variables recorder h a vm log = log @ set_variables recorder h a vm []"
  by (simp add: set_variables_def recorder_def Let_def)

lemma set_variables_recorder_events:
  "\<forall>e\<in>set (set_variables recorder h a vm []). is_set_variable e"
  by (simp add: set_variables_def recorder_def Let_def)

lemma add_to_group_recorder:
  "add_to_group recorder g h log = log @ [AddGroup g, AddChild g h]"
  by (simp add: add_to_group_def recorder_def)

lemma fold_tag_groups_recorder:
  "foldl (\<lambda>s' (key, v). add_to_group recorder (tag_group_name key v) h s') log kvs
     = log @ concat (map (tag_group_events h) kvs)"
  by (induction kvs arbitrary: log)
     (auto simp: add_to_group_recorder tag_group_events_def)

lemma group_by_tags_recorder:
  "group_by_tags recorder vm h log = log @ concat (map (tag_group_events h) (flatten_tags (Tags vm)))"
  by (simp add: group_by_tags_def fold_tag_groups_recorder)

lemma add_to_groups_recorder:
  "add_to_groups recorder opts vm h log = log @ add_to_groups recorder opts vm h []"
  by (simp add: add_to_groups_def Let_def add_to_group_recorder group_by_tags_recorder[of vm h "[]"]
        group_by_tags_recorder[of vm h log])

lemma add_to_groups_recorder_events:
  "\<forall>e\<in>set (add_to_groups recorder opts vm h []). is_grouping e"
  by (auto simp: add_to_groups_def Let_def add_to_group_recorder group_by_tags_recorder
        tag_group_events_def)

lemma apply_constructable_recorder:
  "apply_constructable recorder opts hv h log =
     Done (log @ [SetCompositeVars (opt_compose opts) hv h (opt_strict opts),
                  AddHostToComposedGroups (opt_groups opts) hv h (opt_strict opts),
                  AddHostToKeyedGroups (opt_keyed_groups opts) hv h (opt_strict opts)])"
  by (simp add: apply_constructable_def recorder_def)

lemma process_vm_recorder:
  assumes "determine_hostname (opt_hostname_variable opts) vm None = Some h" and "truthy h"
    and "select_ansible_host (opt_ip_preference opts) vm = Inr a"
    and "hv = build_host_vars recorder (py_str h)
                (log @ AddHost (py_str h) # set_variables recorder (py_str h) a vm [])"
  shows "process_vm recorder opts vm hn log =
     (Some h, Done (log @ AddHost (py_str h) # set_variables recorder (py_str h) a vm []
                      @ [SetCompositeVars (opt_compose opts) hv (py_str h) (opt_strict opts),
                         AddHostToComposedGroups (opt_groups opts) hv (py_str h) (opt_strict opts),
                         AddHostToKeyedGroups (opt_keyed_groups opts) hv (py_str h) (opt_strict opts)]
                      @ add_to_groups recorder opts vm (py_str h) []))"
proof -
  have hn: "determine_hostname (opt_hostname_variable opts) vm hn = Some h"
    by (rule determine_hostname_rebind) (rule assms(1))
  have added: "add_host recorder (py_str h) log = log @ [AddHost (py_str h)]"
    by (simp add: recorder_def)
  have vars: "set_variables recorder (py_str h) a vm (log @ [AddHost (py_str h)])
      = log @ AddHost (py_str h) # set_variables recorder (py_str h) a vm []"
    using set_variables_recorder[of "py_str h" a vm "log @ [AddHost (py_str h)]"] by simp
  show ?thesis
    unfolding process_vm_def Let_def hn
    by (simp add: assms(2) assms(3) added vars assms(4)[symmetric] apply_constructable_recorder
          add_to_groups_recorder[of opts vm "py_str h" "_ @ _"])
qed

lemma build_host_vars_recorder:
  "build_host_vars recorder h (log @ AddHost h # set_variables recorder h a vm []) =
     filter (\<lambda>kv. snd kv \<noteq> Atom PNone)
       [(''ansible_host'', if truthy a then Atom a else lookup_var (rev log) h ''ansible_host''),
        (''outscale_vm_id'', Atom (VmId vm)),
        (''outscale_state'', Atom (State vm)),
        (''outscale_vm_type'', Atom (VmType vm)),
        (''outscale_subregion'', Atom (subregion_of vm)),
        (''outscale_tags'', Dict (flatten_tags (Tags vm)))]"
proof -
  have "truthy a \<Longrightarrow> a \<noteq> PNone"
    by auto
  then show ?thesis
    by (simp add: build_host_vars_def set_variables_def recorder_def Let_def)
qed

lemma example_options_eq:
  "example_options =
     \<lparr> opt_access_key = PStr ''AK'', opt_secret_key = PStr ''SK'', opt_region = PStr ''eu-west-2'',
       opt_filters = YDict [], opt_hostname_variable = PStr ''tag_Name'',
       opt_ip_preference = PStr ''prefer_public'',
       opt_group_by = [''tags'', ''state''],
       opt_compose = YDict [], opt_groups = YDict [], opt_keyed_groups = YList [],
       opt_strict = YBool False \<rparr>"
  by (simp add: example_options_def get_options_def example_config_def config_get_def py_or_def getenv_def)

lemma example_run:
  "process_vm recorder example_options example_vm None [] = (Some (PStr ''web:1''), Done example_log)"
proof -
  have h: "determine_hostname (opt_hostname_variable example_options) example_vm None = Some (PStr ''web:1'')"
    by (simp add: example_options_eq example_vm_tag_name)
  have a: "select_ansible_host (opt_ip_preference example_options) example_vm = Inr (PStr ''1.2.3.4'')"
    by (simp add: example_options_eq select_ansible_host_def example_vm_def)
  have vars: "set_variables recorder ''web:1'' (PStr ''1.2.3.4'') example_vm [] =
     [SetVariable ''web:1'' ''ansible_host'' (Atom (PStr ''1.2.3.4'')),
      SetVariable ''web:1'' ''outscale_vm_id'' (Atom (PStr ''i-1'')),
      SetVariable ''web:1'' ''outscale_state'' (Atom (PStr ''running'')),
      SetVariable ''web:1'' ''outscale_vm_type'' (Atom PNone),
      SetVariable ''web:1'' ''outscale_subregion'' (Atom PNone),
      SetVariable ''web:1'' ''outscale_tags'' (Dict [(''Name'', PStr ''web:1'')])]"
    by (simp add: set_variables_def recorder_def example_vm_def subregion_of_def flatten_tags_def)
  have hv: "example_host_vars = build_host_vars recorder (py_str (PStr ''web:1''))
                ([] @ AddHost (py_str (PStr ''web:1'')) # set_variables recorder (py_str (PStr ''web:1'')) (PStr ''1.2.3.4'') example_vm [])"
    using build_host_vars_recorder[of "''web:1''" "[]" "PStr ''1.2.3.4''" example_vm]
    by (simp add: example_host_vars_def) (simp add: example_vm_def subregion_of_def flatten_tags_def)
  have groups: "add_to_groups recorder example_options example_vm ''web:1'' [] =
     [AddGroup ''tag_Name_web_1'', AddChild ''tag_Name_web_1'' ''web:1'',
      AddGroup ''state_running'', AddChild ''state_running'' ''web:1'']"
    by (simp add: add_to_groups_def example_options_eq add_to_group_recorder group_by_tags_recorder
          tag_group_events_def example_vm_def flatten_tags_def tag_group_name_def safe_value_def
          replace_def py_or_def)
  show ?thesis
    using process_vm_recorder[OF h _ a hv, of None] groups
    by (simp add: vars example_log_def example_options_eq)
qed

section \<open>Tag groups\<close>



section \<open>The order of the Constructable features and the grouping\<close>

lemma all_before_append:
  assumes "\<forall>e\<in>set xs. \<not> Q e" and "\<forall>e\<in>set ys. \<not> P e"
  shows "all_before P Q (xs @ ys)"
proof -
  have "dropWhile (\<lambda>e. \<not> Q e) (xs @ ys) = dropWhile (\<lambda>e. \<not> Q e) ys"
    using assms(1) by (simp add: dropWhile_append2)
  moreover have "\<forall>e\<in>set (dropWhile (\<lambda>e. \<not> Q e) ys). \<not> P e"
    using assms(2) by (meson set_dropWhileD)
  ultimately show ?thesis
    by (simp add: all_before_def list_all_iff)
qed



text \<open>
  C2 as stated fails: for the example record the Constructable calls are not after the
  group calls of the dimensions.
\<close>

theorem constructable_after_grouping_counterexample:
  "\<not> all_before is_grouping is_constructable
       (sink_of (snd (process_vm recorder example_options example_vm None [])))"
  by (simp add: example_run example_log_def all_before_def)

text \<open>
  C2, amended: for a record whose hostname resolves under a valid address policy, the
  calls on the sink are \<^verbatim>\<open>add_host\<close>, the variable assignments, the three Constructable
  calls, then the group calls of the dimensions: every Constructable call comes before
  every dimension group call. The three Constructable calls receive the same map, read
  back from the sink after the assignments: the record's five attributes that are not
  \<^verbatim>\<open>None\<close> and the connection address (the one just set, else the one the sink already
  had for that hostname).
\<close>

theorem constructable_before_grouping:
  assumes "determine_hostname (opt_hostname_variable opts) vm None = Some h"
    and "truthy h"
    and "select_ansible_host (opt_ip_preference opts) vm = Inr a"
  shows "\<exists>vars host_vars grps.
      process_vm recorder opts vm hostname log =
        (Some h, Done (log @ AddHost (py_str h) # vars
           @ [SetCompositeVars (opt_compose opts) host_vars (py_str h) (opt_strict opts),
              AddHostToComposedGroups (opt_groups opts) host_vars (py_str h) (opt_strict opts),
              AddHostToKeyedGroups (opt_keyed_groups opts) host_vars (py_str h) (opt_strict opts)]
           @ grps))
      \<and> vars = set_variables recorder (py_str h) a vm [] \<and> list_all is_set_variable vars
      \<and> grps = add_to_groups recorder opts vm (py_str h) [] \<and> list_all is_grouping grps
      \<and> host_vars = build_host_vars recorder (py_str h) (log @ AddHost (py_str h) # vars)
      \<and> host_vars = filter (\<lambda>kv. snd kv \<noteq> Atom PNone)
           [(''ansible_host'',
               if truthy a then Atom a else get_host_var recorder log (py_str h) ''ansible_host''),
            (''outscale_vm_id'', Atom (VmId vm)),
            (''outscale_state'', Atom (State vm)),
            (''outscale_vm_type'', Atom (VmType vm)),
            (''outscale_subregion'', Atom (subregion_of vm)),
            (''outscale_tags'', Dict (flatten_tags (Tags vm)))]
      \<and> all_before is_constructable is_grouping
           (AddHost (py_str h) # vars
             @ [SetCompositeVars (opt_compose opts) host_vars (py_str h) (opt_strict opts),
                AddHostToComposedGroups (opt_groups opts) host_vars (py_str h) (opt_strict opts),
                AddHostToKeyedGroups (opt_keyed_groups opts) host_vars (py_str h) (opt_strict opts)]
             @ grps)"
proof -
  define vars where "vars = set_variables recorder (py_str h) a vm []"
  define grps where "grps = add_to_groups recorder opts vm (py_str h) []"
  define host_vars where
    "host_vars = build_host_vars recorder (py_str h) (log @ AddHost (py_str h) # vars)"
  let ?cons = "[SetCompositeVars (opt_compose opts) host_vars (py_str h) (opt_strict opts),
              AddHostToComposedGroups (opt_groups opts) host_vars (py_str h) (opt_strict opts),
              AddHostToKeyedGroups (opt_keyed_groups opts) host_vars (py_str h) (opt_strict opts)]"
  have run: "process_vm recorder opts vm hostname log =
        (Some h, Done (log @ AddHost (py_str h) # vars @ ?cons @ grps))"
    using process_vm_recorder[OF assms(1) assms(2) assms(3) host_vars_def[unfolded vars_def], of hostname]
    by (simp add: vars_def grps_def host_vars_def)
  have only_vars: "list_all is_set_variable vars"
    using set_variables_recorder_events[of "py_str h" a vm] by (simp add: vars_def list_all_iff)
  have only_groups: "list_all is_grouping grps"
    using add_to_groups_recorder_events[of opts vm "py_str h"] by (simp add: grps_def list_all_iff)
  have content: "host_vars = filter (\<lambda>kv. snd kv \<noteq> Atom PNone)
           [(''ansible_host'',
               if truthy a then Atom a else get_host_var recorder log (py_str h) ''ansible_host''),
            (''outscale_vm_id'', Atom (VmId vm)),
            (''outscale_state'', Atom (State vm)),
            (''outscale_vm_type'', Atom (VmType vm)),
            (''outscale_subregion'', Atom (subregion_of vm)),
            (''outscale_tags'', Dict (flatten_tags (Tags vm)))]"
  proof -
    have g: "get_host_var recorder log (py_str h) ''ansible_host''
        = lookup_var (rev log) (py_str h) ''ansible_host''"
      by (simp add: recorder_def)
    show ?thesis
      unfolding host_vars_def vars_def g by (rule build_host_vars_recorder)
  qed
  have no_groups: "\<forall>e\<in>set (AddHost (py_str h) # vars @ ?cons). \<not> is_grouping e"
  proof -
    have "\<forall>e\<in>set vars. \<not> is_grouping e"
      by (simp add: vars_def set_variables_def recorder_def Let_def)
    then show ?thesis by simp
  qed
  have no_cons: "\<forall>e\<in>set grps. \<not> is_constructable e"
  proof
    fix e assume "e \<in> set grps"
    then have "is_grouping e"
      using only_groups by (simp add: list_all_iff)
    then show "\<not> is_constructable e"
      by (cases e) simp_all
  qed
  have order: "all_before is_constructable is_grouping ((AddHost (py_str h) # vars @ ?cons) @ grps)"
    by (rule all_before_append[OF no_groups no_cons])
  have order': "all_before is_constructable is_grouping (AddHost (py_str h) # vars @ ?cons @ grps)"
    using order by simp
  show ?thesis
  proof (intro exI conjI)
    show "process_vm recorder opts vm hostname log =
        (Some h, Done (log @ AddHost (py_str h) # vars @ ?cons @ grps))"
      by (rule run)
    show "vars = set_variables recorder (py_str h) a vm []"
      by (rule vars_def)
    show "list_all is_set_variable vars"
      by (rule only_vars)
    show "grps = add_to_groups recorder opts vm (py_str h) []"
      by (rule grps_def)
    show "list_all is_grouping grps"
      by (rule only_groups)
    show "host_vars = build_host_vars recorder (py_str h) (log @ AddHost (py_str h) # vars)"
      by (rule host_vars_def)
    show "host_vars = filter (\<lambda>kv. snd kv \<noteq> Atom PNone)
           [(''ansible_host'',
               if truthy a then Atom a else get_host_var recorder log (py_str h) ''ansible_host''),
            (''outscale_vm_id'', Atom (VmId vm)),
            (''outscale_state'', Atom (State vm)),
            (''outscale_vm_type'', Atom (VmType vm)),
            (''outscale_subregion'', Atom (subregion_of vm)),
            (''outscale_tags'', Dict (flatten_tags (Tags vm)))]"
      by (rule content)
    show "all_before is_constructable is_grouping (AddHost (py_str h) # vars @ ?cons @ grps)"
      by (rule order')
  qed
qed

text \<open>C2 amended, for the example record: the calls it makes, in order.\<close>

theorem constructable_before_grouping_witness:
  "process_vm recorder example_options example_vm None [] = (Some (PStr ''web:1''), Done example_log)
   \<and> all_before is_constructable is_grouping example_log"
proof -
  have h: "determine_hostname (opt_hostname_variable example_options) example_vm None = Some (PStr ''web:1'')"
    by (simp add: example_options_eq example_vm_tag_name)
  have t: "truthy (PStr ''web:1'')" by simp
  have a: "select_ansible_host (opt_ip_preference example_options) example_vm = Inr (PStr ''1.2.3.4'')"
    by (simp add: example_options_eq select_ansible_host_def example_vm_def)
  from constructable_before_grouping[OF h t a, of None "[]"] show ?thesis
    by (clarsimp simp: example_run)
qed


end
